theory Spec2Isabelle
  imports Main "HOL-Library.Sublist"
begin

section \<open>Strings and paths\<close>

text \<open>
  Python's \<^verbatim>\<open>str.replace(old, new)\<close>: the occurrences of \<open>old\<close> are found from left to
  right, without overlap, and every one of them is replaced. The source calls it with the
  non-empty patterns \<^verbatim>\<open>"."\<close>, \<^verbatim>\<open>"/"\<close> and \<^verbatim>\<open>".py"\<close> only.
\<close>

fun replace :: "string \<Rightarrow> string \<Rightarrow> string \<Rightarrow> string" where
  "replace old new [] = []"
| "replace old new (c # cs) =
     (if old \<noteq> [] \<and> prefix old (c # cs)
      then new @ replace old new (drop (length old) (c # cs))
      else c # replace old new cs)"

text \<open>\<^verbatim>\<open>sep.join(xs)\<close> and \<^verbatim>\<open>s.split(sep)\<close> for a one-character separator.\<close>

fun join :: "string \<Rightarrow> string list \<Rightarrow> string" where
  "join sep [] = []"
| "join sep [x] = x"
| "join sep (x # y # ys) = x @ sep @ join sep (y # ys)"

fun split :: "char \<Rightarrow> string \<Rightarrow> string list" where
  "split sep [] = [[]]"
| "split sep (c # cs) =
     (if c = sep then [] # split sep cs
      else (case split sep cs of [] \<Rightarrow> [[c]] | w # ws \<Rightarrow> (c # w) # ws))"

text \<open>\<^verbatim>\<open>s.rstrip(".")\<close>: every trailing dot is removed.\<close>

definition rstrip :: "char \<Rightarrow> string \<Rightarrow> string" where
  "rstrip ch s = rev (dropWhile (\<lambda>c. c = ch) (rev s))"

text \<open>
  A \<^verbatim>\<open>pathlib.Path\<close> is modelled by the list of its components. The paths of a run are
  absolute: \<^verbatim>\<open>main\<close> resolves the application root and joins every file name to it. The
  empty list is the file-system root \<^verbatim>\<open>/\<close>, whose \<^verbatim>\<open>parent\<close> is itself. \<^verbatim>\<open>parent\<close> and
  \<^verbatim>\<open>==\<close> are lexical in pathlib, as they are on lists.
\<close>

type_synonym path = "string list"

definition parent :: "path \<Rightarrow> path" where
  "parent p = butlast p"

definition str_path :: "path \<Rightarrow> string" where
  "str_path p = CHR ''/'' # join ''/'' p"

datatype error =
  OSError | JSONDecodeError | AttributeError | TypeError | ValueError | KeyError | InvalidMode

text \<open>
  \<^verbatim>\<open>path.relative_to(root_path)\<close> raises \<^verbatim>\<open>ValueError\<close> unless \<open>root_path\<close> is a prefix of
  the path; the string of a relative path without components is \<^verbatim>\<open>"."\<close>.
\<close>

definition relative_to :: "path \<Rightarrow> path \<Rightarrow> error + path" where
  "relative_to p root_path =
     (if prefix root_path p then Inr (drop (length root_path) p) else Inl ValueError)"

definition str_relative :: "path \<Rightarrow> string" where
  "str_relative p = (if p = [] then ''.'' else join ''/'' p)"

text \<open>
  \<^verbatim>\<open>root_path / Path(module_import.replace(".", "/"))\<close>. Parsing a string into a path drops
  the empty and the \<^verbatim>\<open>"."\<close> components; joining an absolute path to the root gives the
  absolute path. (A module name an \<^verbatim>\<open>ast.ImportFrom\<close> node carries never starts with a dot,
  so the second case is there for totality only.)
\<close>

definition build_path_from_import :: "string \<Rightarrow> path \<Rightarrow> path" where
  "build_path_from_import module_import root_path =
     (let s = replace ''.'' ''/'' module_import;
          module_path = filter (\<lambda>c. c \<noteq> [] \<and> c \<noteq> ''.'') (split CHR ''/'' s)
      in if prefix ''/'' s then module_path else root_path @ module_path)"

definition build_module_from_path :: "path \<Rightarrow> path \<Rightarrow> error + string" where
  "build_module_from_path p root_path =
     (case relative_to p root_path of
        Inl e \<Rightarrow> Inl e
      | Inr rel \<Rightarrow> Inr (replace ''.py'' '''' (replace ''/'' ''.'' (str_relative rel))))"

section \<open>Policy files and configurations\<close>

datatype ModuleTreeBuildingMode = IMPORT | EXPORT | BYPASS

text \<open>
  The library \<^verbatim>\<open>marisa_trie\<close> is used through three operations: a trie is built from a list
  of keys, \<^verbatim>\<open>prefixes(s)\<close> lists the stored keys that are prefixes of \<open>s\<close>, and \<^verbatim>\<open>keys()\<close>
  lists the stored keys. A trie stores each key once; the order in which the library
  enumerates keys is its own, and no statement below depends on it.
\<close>

datatype Trie = Trie "string list"

fun prefixes :: "Trie \<Rightarrow> string \<Rightarrow> string list" where
  "prefixes (Trie ks) s = filter (\<lambda>k. prefix k s) (remdups ks)"

fun keys :: "Trie \<Rightarrow> string list" where
  "keys (Trie ks) = remdups ks"

record Config =
  allowed :: "ModuleTreeBuildingMode \<rightharpoonup> Trie \<times> bool"
  path :: string

text \<open>
  What \<^verbatim>\<open>json.loads\<close> returns. An object is the association list of a Python dictionary,
  read with \<open>map_of\<close>. The value of a number is never looked at by the program.
\<close>

datatype json =
  JNull | JBool bool | JNumber | JString string | JArray "json list"
  | JObject "(string \<times> json) list"

text \<open>
  The file system as the program sees it: a path does not exist (\<open>None\<close>), or it exists
  and \<^verbatim>\<open>read_text\<close> fails, or its text is not JSON, or it holds a JSON document.
\<close>

datatype policy_file = Unreadable | NotJSON | Document json

type_synonym file_system = "path \<rightharpoonup> policy_file"

fun read_json :: "policy_file \<Rightarrow> error + json" where
  "read_json Unreadable = Inl OSError"
| "read_json NotJSON = Inl JSONDecodeError"
| "read_json (Document j) = Inr j"

text \<open>
  \<^verbatim>\<open>json_config.get(name)\<close>: only a dictionary has the method; a key that is missing and a
  key bound to \<^verbatim>\<open>null\<close> both give \<^verbatim>\<open>None\<close>.
\<close>

fun json_get :: "json \<Rightarrow> string \<Rightarrow> error + json option" where
  "json_get (JObject kvs) name =
     (case map_of kvs name of
        None \<Rightarrow> Inr None
      | Some JNull \<Rightarrow> Inr None
      | Some v \<Rightarrow> Inr (Some v))"
| "json_get _ name = Inl AttributeError"

text \<open>
  \<^verbatim>\<open>[x + "." for x in val]\<close>: a list is iterated by element, a string by character, a
  dictionary by key; a Boolean or a number is not iterable. \<^verbatim>\<open>x + "."\<close> needs a string.
\<close>

fun add_dot :: "json \<Rightarrow> error + string" where
  "add_dot (JString x) = Inr (x @ ''.'')"
| "add_dot _ = Inl TypeError"

fun iterate :: "json \<Rightarrow> error + json list" where
  "iterate (JArray xs) = Inr xs"
| "iterate (JString s) = Inr (map (\<lambda>c. JString [c]) s)"
| "iterate (JObject kvs) = Inr (map (\<lambda>kv. JString (fst kv)) kvs)"
| "iterate _ = Inl TypeError"

fun dotted :: "json list \<Rightarrow> error + string list" where
  "dotted [] = Inr []"
| "dotted (x # xs) =
     (case add_dot x of
        Inl e \<Rightarrow> Inl e
      | Inr m \<Rightarrow> (case dotted xs of Inl e \<Rightarrow> Inl e | Inr ms \<Rightarrow> Inr (m # ms)))"

text \<open>The body of the loop over the three keys (lines 75 to 82).\<close>

definition build_allow :: "json \<Rightarrow> string \<Rightarrow> error + Trie \<times> bool" where
  "build_allow json_config name =
     (case json_get json_config name of
        Inl e \<Rightarrow> Inl e
      | Inr None \<Rightarrow> Inr (Trie [], True)
      | Inr (Some val) \<Rightarrow>
          (case iterate val of
             Inl e \<Rightarrow> Inl e
           | Inr xs \<Rightarrow>
               (case dotted xs of
                  Inl e \<Rightarrow> Inl e
                | Inr modules \<Rightarrow> Inr (Trie modules, False))))"

definition mode_keys :: "(ModuleTreeBuildingMode \<times> string) list" where
  "mode_keys =
     [(IMPORT, ''allowed_import_modules''),
      (EXPORT, ''allowed_export_modules''),
      (BYPASS, ''bypass_export_check_for_modules'')]"

fun fill_allowed ::
  "json \<Rightarrow> (ModuleTreeBuildingMode \<times> string) list \<Rightarrow> Config \<Rightarrow> error + Config" where
  "fill_allowed json_config [] config = Inr config"
| "fill_allowed json_config ((which, name) # rest) config =
     (case build_allow json_config name of
        Inl e \<Rightarrow> Inl e
      | Inr entry \<Rightarrow>
          fill_allowed json_config rest
            (config\<lparr>allowed := (allowed config)(which \<mapsto> entry)\<rparr>))"

text \<open>Lines 65 to 82: the configuration built from the parsed policy file.\<close>

definition build_config :: "string \<Rightarrow> json \<Rightarrow> error + Config" where
  "build_config file_name json_config =
     fill_allowed json_config mode_keys \<lparr>allowed = Map.empty, path = file_name\<rparr>"

text \<open>
  The state threaded through a run: the cache \<^verbatim>\<open>config_lookup\<close>, keyed by the string of the
  policy file's path, and a log of the policy files that were read, in order, which makes
  the reads of the file system observable.
\<close>

record state =
  config_lookup :: "string \<rightharpoonup> Config"
  read_log :: "path list"

text \<open>
  \<^verbatim>\<open>get_package_config\<close>. The recursion on the parent directory has no bound in the source,
  so the function is partial: \<open>None\<close> is a call that does not return. A call that returns
  gives the exception or the result, and the state it leaves.
\<close>

partial_function (option) get_package_config ::
  "file_system \<Rightarrow> path \<Rightarrow> path \<Rightarrow> state \<Rightarrow> ((error + Config option) \<times> state) option"
where
  "get_package_config fs directory_path root_path s =
     (let potential_embargo_file = directory_path @ [''__embargo__.json''] in
      case config_lookup s (str_path potential_embargo_file) of
        Some cached_config \<Rightarrow> Some (Inr (Some cached_config), s)
      | None \<Rightarrow>
          (case fs potential_embargo_file of
             None \<Rightarrow>
               if directory_path = root_path then Some (Inr None, s)
               else get_package_config fs (parent directory_path) root_path s
           | Some file \<Rightarrow>
               (let s1 = s\<lparr>read_log := read_log s @ [potential_embargo_file]\<rparr> in
                case read_json file of
                  Inl e \<Rightarrow> Some (Inl e, s1)
                | Inr json_config \<Rightarrow>
                    (case build_config (str_path potential_embargo_file) json_config of
                       Inl e \<Rightarrow> Some (Inl e, s1)
                     | Inr config \<Rightarrow>
                         Some (Inr (Some config),
                               s1\<lparr>config_lookup :=
                                    (config_lookup s1)
                                      (str_path potential_embargo_file \<mapsto> config)\<rparr>)))))"

section \<open>Checking one import\<close>

text \<open>
  \<^verbatim>\<open>is_operation_allowed\<close>: the flag of the pair says that the key was missing, and then
  everything is allowed; otherwise some stored key is a prefix of the module name followed
  by a dot.
\<close>

definition is_operation_allowed :: "string \<Rightarrow> Trie \<times> bool \<Rightarrow> bool" where
  "is_operation_allowed imported_module allow =
     (if snd allow then True
      else length (prefixes (fst allow) (imported_module @ ''.'')) > 0)"

text \<open>The only field of an \<^verbatim>\<open>ast.ImportFrom\<close> node that the checks read.\<close>

record ImportFrom =
  module :: "string option"

text \<open>
  The lines of a violation report, each with the values its format string interpolates:
  \<^verbatim>\<open>f"{file}: {node.module}"\<close>, \<^verbatim>\<open>f"Allowed exports: {...}"\<close>, \<^verbatim>\<open>f"Allowed imports: {...}"\<close>
  and \<^verbatim>\<open>f"Config file: {config.path}\n"\<close>.
\<close>

datatype report_line =
  Offence string string
  | AllowedExports "string list"
  | AllowedImports "string list"
  | ConfigFile string

definition actual_path_of ::
  "ModuleTreeBuildingMode \<Rightarrow> path \<Rightarrow> path \<Rightarrow> ImportFrom \<Rightarrow> error + path" where
  "actual_path_of mode file app_root_path node =
     (case mode of
        EXPORT \<Rightarrow>
          Inr (build_path_from_import
                 (case module node of None \<Rightarrow> '''' | Some m \<Rightarrow> m) app_root_path)
      | IMPORT \<Rightarrow> Inr file
      | BYPASS \<Rightarrow> Inl InvalidMode)"

text \<open>Lines 169 to 176: \<open>Inr True\<close> when the importing file is exempt from the export check.\<close>

definition bypass_check ::
  "ModuleTreeBuildingMode \<Rightarrow> path \<Rightarrow> path \<Rightarrow> Config \<Rightarrow> error + bool" where
  "bypass_check mode file app_root_path config =
     (if mode = EXPORT then
        (case build_module_from_path file app_root_path of
           Inl e \<Rightarrow> Inl e
         | Inr importer \<Rightarrow>
             (case allowed config BYPASS of
                None \<Rightarrow> Inl KeyError
              | Some bypass \<Rightarrow> Inr (is_operation_allowed importer (fst bypass, False))))
      else Inr False)"

text \<open>Lines 178 to 193.\<close>

definition report ::
  "ModuleTreeBuildingMode \<Rightarrow> path \<Rightarrow> string \<Rightarrow> Config \<Rightarrow> Trie \<times> bool \<Rightarrow> report_line list" where
  "report mode file imported config allow =
     (if is_operation_allowed imported allow then []
      else
        (let human_readable_allowed = map (rstrip CHR ''.'') (keys (fst allow)) in
         [Offence (str_path file) imported,
          (if mode = EXPORT then AllowedExports human_readable_allowed
           else AllowedImports human_readable_allowed),
          ConfigFile (path config)]))"

definition check_for_allowed ::
  "file_system \<Rightarrow> ModuleTreeBuildingMode \<Rightarrow> path \<Rightarrow> path \<Rightarrow> state \<Rightarrow> ImportFrom
     \<Rightarrow> ((error + report_line list) \<times> state) option" where
  "check_for_allowed fs mode file app_root_path s node =
     (case actual_path_of mode file app_root_path node of
        Inl e \<Rightarrow> Some (Inl e, s)
      | Inr actual_path \<Rightarrow>
          (case get_package_config fs (parent actual_path) app_root_path s of
             None \<Rightarrow> None
           | Some (Inl e, s1) \<Rightarrow> Some (Inl e, s1)
           | Some (Inr None, s1) \<Rightarrow> Some (Inr [], s1)
           | Some (Inr (Some config), s1) \<Rightarrow>
               (case allowed config mode of
                  None \<Rightarrow> Some (Inl KeyError, s1)
                | Some allow \<Rightarrow>
                    (case module node of
                       None \<Rightarrow> Some (Inr [], s1)
                     | Some imported \<Rightarrow>
                         (case bypass_check mode file app_root_path config of
                            Inl e \<Rightarrow> Some (Inl e, s1)
                          | Inr True \<Rightarrow> Some (Inr [], s1)
                          | Inr False \<Rightarrow>
                              Some (Inr (report mode file imported config allow), s1))))))"

section \<open>Checking one file\<close>

text \<open>
  The loop of \<^verbatim>\<open>check_for_violations\<close> over the local import nodes of a file: the import
  check, then the export check, with one cache; an exception leaves the loop.
\<close>

fun check_nodes ::
  "file_system \<Rightarrow> path \<Rightarrow> path \<Rightarrow> ImportFrom list \<Rightarrow> report_line list \<times> report_line list
     \<Rightarrow> state \<Rightarrow> ((error + report_line list \<times> report_line list) \<times> state) option" where
  "check_nodes fs filename app_root_path [] violations s = Some (Inr violations, s)"
| "check_nodes fs filename app_root_path (node # nodes) violations s =
     (case check_for_allowed fs IMPORT filename app_root_path s node of
        None \<Rightarrow> None
      | Some (Inl e, s1) \<Rightarrow> Some (Inl e, s1)
      | Some (Inr imp, s1) \<Rightarrow>
          (case check_for_allowed fs EXPORT filename app_root_path s1 node of
             None \<Rightarrow> None
           | Some (Inl e, s2) \<Rightarrow> Some (Inl e, s2)
           | Some (Inr exp, s2) \<Rightarrow>
               check_nodes fs filename app_root_path nodes
                 (fst violations @ imp, snd violations @ exp) s2))"

text \<open>
  \<^verbatim>\<open>check_for_violations\<close>. Its last argument is the list of the file's import nodes that
  \<^verbatim>\<open>is_local_import\<close> keeps: reading and parsing the Python file is the work of \<^verbatim>\<open>ast\<close>.
\<close>

definition check_for_violations ::
  "file_system \<Rightarrow> path \<Rightarrow> path \<Rightarrow> state \<Rightarrow> ImportFrom list
     \<Rightarrow> ((error + report_line list \<times> report_line list) \<times> state) option" where
  "check_for_violations fs filename app_root_path s local_import_nodes =
     (if \<not> suffix ''.py'' (str_path filename) then Some (Inr ([], []), s)
      else check_nodes fs filename app_root_path local_import_nodes ([], []) s)"

section \<open>Vocabulary of the statements\<close>

text \<open>
  A directory is unpoliced when it holds no policy file and the cache has no entry under
  the name such a file would have.
\<close>

definition unpoliced :: "file_system \<Rightarrow> state \<Rightarrow> path \<Rightarrow> bool" where
  "unpoliced fs s d \<longleftrightarrow>
     fs (d @ [''__embargo__.json'']) = None
     \<and> config_lookup s (str_path (d @ [''__embargo__.json''])) = None"

text \<open>
  The tree of the scenarios: the application root \<^verbatim>\<open>/r\<close> with the package \<^verbatim>\<open>pkg\<close>, whose
  directory holds the policy file; \<^verbatim>\<open>/r/pkg/other.py\<close> imports \<^verbatim>\<open>pkg.db\<close>. A run starts with
  an empty cache.
\<close>

definition app_root :: path where
  "app_root = [''r'']"

definition other_py :: path where
  "other_py = [''r'', ''pkg'', ''other.py'']"

definition import_db :: ImportFrom where
  "import_db = \<lparr>module = Some ''pkg.db''\<rparr>"

definition policy_in_pkg :: "(string \<times> json) list \<Rightarrow> file_system" where
  "policy_in_pkg kvs = [[''r'', ''pkg'', ''__embargo__.json''] \<mapsto> Document (JObject kvs)]"

definition fresh :: state where
  "fresh = \<lparr>config_lookup = Map.empty, read_log = []\<rparr>"

section \<open>Auxiliary facts\<close>

lemma prefix_dot: "prefix (p @ ''.'') (c @ ''.'') \<longleftrightarrow> c = p \<or> prefix (p @ ''.'') c"
proof
  assume "prefix (p @ ''.'') (c @ ''.'')"
  then obtain zs where zs: "c @ ''.'' = (p @ ''.'') @ zs"
    by (auto simp: prefix_def)
  show "c = p \<or> prefix (p @ ''.'') c"
  proof (cases zs rule: rev_cases)
    case Nil
    with zs show ?thesis by simp
  next
    case (snoc ys y)
    with zs have "c = (p @ ''.'') @ ys" by simp
    then show ?thesis by (simp add: prefix_def)
  qed
next
  assume "c = p \<or> prefix (p @ ''.'') c"
  then show "prefix (p @ ''.'') (c @ ''.'')"
    by (auto simp: prefix_def)
qed

lemma take_butlast_le: "k \<le> length d - 1 \<Longrightarrow> take k (butlast d) = take k d"
  by (cases d rule: rev_cases) simp_all

lemma restricted_allows:
  "is_operation_allowed m (t, False) \<longleftrightarrow> (\<exists>k\<in>set (keys t). prefix k (m @ ''.''))"
  by (cases t) (auto simp: is_operation_allowed_def filter_empty_conv)

lemma build_allow_object:
  "build_allow (JObject kvs) name = Inr (t, u) \<Longrightarrow>
     (u \<longleftrightarrow> map_of kvs name = None \<or> map_of kvs name = Some JNull)
     \<and> (u \<longrightarrow> t = Trie [])
     \<and> (map_of kvs name = Some (JArray []) \<longrightarrow> t = Trie [] \<and> \<not> u)"
  by (auto simp: build_allow_def split: option.splits json.splits sum.splits)

lemma build_config_allowed:
  assumes "build_config f j = Inr c" and "(which, name) \<in> set mode_keys"
  shows "\<exists>entry. build_allow j name = Inr entry \<and> allowed c which = Some entry"
  using assms
  by (auto simp: build_config_def mode_keys_def split: sum.splits)

subsection \<open>One step of the search\<close>

lemma gpc_cached:
  "config_lookup s (str_path (d @ [''__embargo__.json''])) = Some c \<Longrightarrow>
   get_package_config fs d root s = Some (Inr (Some c), s)"
  by (subst get_package_config.simps) simp

lemma gpc_step:
  "unpoliced fs s d \<Longrightarrow> d \<noteq> root \<Longrightarrow>
   get_package_config fs d root s = get_package_config fs (parent d) root s"
  by (subst get_package_config.simps) (simp add: unpoliced_def)

lemma gpc_root:
  "unpoliced fs s root \<Longrightarrow> get_package_config fs root root s = Some (Inr None, s)"
  by (subst get_package_config.simps) (simp add: unpoliced_def)

lemma gpc_unreadable:
  "config_lookup s (str_path (d @ [''__embargo__.json''])) = None \<Longrightarrow>
   fs (d @ [''__embargo__.json'']) = Some pf \<Longrightarrow> read_json pf = Inl e \<Longrightarrow>
   get_package_config fs d root s =
     Some (Inl e, s\<lparr>read_log := read_log s @ [d @ [''__embargo__.json'']]\<rparr>)"
  by (subst get_package_config.simps) simp

subsection \<open>The search as a whole\<close>

lemma gpc_skip:
  "\<forall>k. 0 < k \<and> k \<le> length rest \<longrightarrow>
        unpoliced fs s (a @ take k rest) \<and> a @ take k rest \<noteq> root \<Longrightarrow>
   get_package_config fs (a @ rest) root s = get_package_config fs a root s"
proof (induction rest rule: rev_induct)
  case Nil
  show ?case by simp
next
  case (snoc x xs)
  have top: "unpoliced fs s (a @ xs @ [x])" "a @ xs @ [x] \<noteq> root"
    using snoc.prems [rule_format, of "Suc (length xs)"] by simp_all
  have below: "\<forall>k. 0 < k \<and> k \<le> length xs \<longrightarrow>
      unpoliced fs s (a @ take k xs) \<and> a @ take k xs \<noteq> root"
  proof (intro allI impI)
    fix k assume "0 < k \<and> k \<le> length xs"
    with snoc.prems [rule_format, of k]
    show "unpoliced fs s (a @ take k xs) \<and> a @ take k xs \<noteq> root" by simp
  qed
  have "get_package_config fs (a @ xs @ [x]) root s
      = get_package_config fs (parent (a @ xs @ [x])) root s"
    using top by (rule gpc_step)
  also have "parent (a @ xs @ [x]) = a @ xs"
    by (simp add: parent_def butlast_append)
  also have "get_package_config fs (a @ xs) root s = get_package_config fs a root s"
    using below by (rule snoc.IH)
  finally show ?case by simp
qed

lemma gpc_returns_below:
  "\<exists>r. get_package_config fs (root @ rest) root s = Some r"
proof (induction rest rule: rev_induct)
  case Nil
  show ?case
    by (subst get_package_config.simps) (simp add: Let_def split: option.split sum.split)
next
  case (snoc x xs)
  have p: "parent (root @ xs @ [x]) = root @ xs"
    by (simp add: parent_def butlast_append)
  from snoc show ?case
    by (subst get_package_config.simps) (simp add: Let_def p split: option.split sum.split)
qed

lemma gpc_returns_only_if:
  assumes "get_package_config fs d root s = Some y"
  shows "prefix root d \<or> (\<exists>k\<le>length d. \<not> unpoliced fs s (take k d))"
proof (rule get_package_config.raw_induct
    [where P = "\<lambda>fs d root s y.
       prefix root d \<or> (\<exists>k\<le>length d. \<not> unpoliced fs s (take k d))",
     OF _ assms], goal_cases)
  case (1 gpc fs d root s y)
  show ?case
  proof (cases "unpoliced fs s d")
    case False
    then have "\<not> unpoliced fs s (take (length d) d)" by simp
    then show ?thesis by blast
  next
    case True
    show ?thesis
    proof (cases "d = root")
      case True
      then show ?thesis by simp
    next
      case False
      with True 1(2) have "gpc fs (parent d) root s = Some y"
        by (simp add: unpoliced_def)
      from 1(1) [OF this]
      have "prefix root (butlast d)
          \<or> (\<exists>k\<le>length (butlast d). \<not> unpoliced fs s (take k (butlast d)))"
        by (simp add: parent_def)
      then show ?thesis
      proof
        assume "prefix root (butlast d)"
        then have "prefix root d"
          using prefixeq_butlast [of d] by (rule prefix_order.trans)
        then show ?thesis ..
      next
        assume "\<exists>k\<le>length (butlast d). \<not> unpoliced fs s (take k (butlast d))"
        then obtain k where k: "k \<le> length d - 1" "\<not> unpoliced fs s (take k (butlast d))"
          by auto
        then have "k \<le> length d \<and> \<not> unpoliced fs s (take k d)"
          by (simp add: take_butlast_le)
        then show ?thesis by blast
      qed
    qed
  qed
qed

lemma gpc_error_keeps_cache:
  assumes "get_package_config fs d root s = Some y"
  shows "\<forall>e s1. y = (Inl e, s1) \<longrightarrow> config_lookup s1 = config_lookup s"
proof (rule get_package_config.raw_induct
    [where P = "\<lambda>fs d root s y.
       \<forall>e s1. y = (Inl e, s1) \<longrightarrow> config_lookup s1 = config_lookup s",
     OF _ assms], goal_cases)
  case (1 gpc fs d root s y)
  show ?case
  proof (intro allI impI)
    fix e s1 assume y: "y = (Inl e, s1)"
    show "config_lookup s1 = config_lookup s"
    proof (cases "unpoliced fs s d \<and> d \<noteq> root")
      case True
      with 1(2) y have "gpc fs (parent d) root s = Some (Inl e, s1)"
        by (simp add: unpoliced_def)
      from 1(1) [OF this] show ?thesis by simp
    next
      case False
      with 1(2) y show ?thesis
        by (auto simp: unpoliced_def Let_def split: option.splits sum.splits if_splits)
    qed
  qed
qed

lemma gpc_again:
  assumes "get_package_config fs d root s = Some y"
  shows "\<forall>r s1. y = (Inr r, s1) \<longrightarrow>
     (config_lookup s1 = config_lookup s
        \<or> (\<exists>c key. r = Some c \<and> config_lookup s1 = (config_lookup s)(key \<mapsto> c)))
     \<and> get_package_config fs d root s1 = Some (Inr r, s1)
     \<and> (\<forall>c. r = Some c \<longrightarrow>
            (\<exists>k\<le>length d.
               config_lookup s1 (str_path (take k d @ [''__embargo__.json''])) = Some c))"
proof (rule get_package_config.raw_induct
    [where P = "\<lambda>fs d root s y. \<forall>r s1. y = (Inr r, s1) \<longrightarrow>
     (config_lookup s1 = config_lookup s
        \<or> (\<exists>c key. r = Some c \<and> config_lookup s1 = (config_lookup s)(key \<mapsto> c)))
     \<and> get_package_config fs d root s1 = Some (Inr r, s1)
     \<and> (\<forall>c. r = Some c \<longrightarrow>
            (\<exists>k\<le>length d.
               config_lookup s1 (str_path (take k d @ [''__embargo__.json''])) = Some c))",
     OF _ assms], goal_cases)
  case (1 gpc fs d root s y)
  let ?key = "str_path (d @ [''__embargo__.json''])"
  show ?case
  proof (intro allI impI)
    fix r s1 assume y: "y = (Inr r, s1)"
    show "(config_lookup s1 = config_lookup s
        \<or> (\<exists>c key. r = Some c \<and> config_lookup s1 = (config_lookup s)(key \<mapsto> c)))
     \<and> get_package_config fs d root s1 = Some (Inr r, s1)
     \<and> (\<forall>c. r = Some c \<longrightarrow>
            (\<exists>k\<le>length d.
               config_lookup s1 (str_path (take k d @ [''__embargo__.json''])) = Some c))"
    proof (cases "config_lookup s ?key")
      case (Some c)
      with 1(2) y have e: "r = Some c" "s1 = s" by simp_all
      have "config_lookup s (str_path (take (length d) d @ [''__embargo__.json''])) = Some c"
        using Some by simp
      then have "\<exists>k\<le>length d.
          config_lookup s (str_path (take k d @ [''__embargo__.json''])) = Some c"
        by blast
      with e gpc_cached [OF Some] show ?thesis by simp
    next
      case None
      show ?thesis
      proof (cases "fs (d @ [''__embargo__.json''])")
        case (Some pf)
        with None 1(2) y obtain c where
          c: "r = Some c"
             "s1 = s\<lparr>read_log := read_log s @ [d @ [''__embargo__.json'']],
                     config_lookup := (config_lookup s)(?key \<mapsto> c)\<rparr>"
          by (auto simp: Let_def split: sum.splits)
        then have hit: "config_lookup s1 ?key = Some c" by simp
        then have
          "config_lookup s1 (str_path (take (length d) d @ [''__embargo__.json''])) = Some c"
          by simp
        then have "\<exists>k\<le>length d.
            config_lookup s1 (str_path (take k d @ [''__embargo__.json''])) = Some c"
          by blast
        moreover have "config_lookup s1 = (config_lookup s)(?key \<mapsto> c)"
          using c by simp
        ultimately show ?thesis using c(1) gpc_cached [OF hit] by blast
      next
        case nofile: None
        show ?thesis
        proof (cases "d = root")
          case True
          with None nofile 1(2) y have e: "r = None" "s1 = s" by simp_all
          have "unpoliced fs s root" using None nofile True by (simp add: unpoliced_def)
          from gpc_root [OF this] e True show ?thesis by simp
        next
          case False
          with None nofile 1(2) y have "gpc fs (parent d) root s = Some (Inr r, s1)"
            by simp
          from 1(1) [OF this, rule_format, OF refl]
          have rel: "config_lookup s1 = config_lookup s
              \<or> (\<exists>c key. r = Some c \<and> config_lookup s1 = (config_lookup s)(key \<mapsto> c))"
            and again: "get_package_config fs (parent d) root s1 = Some (Inr r, s1)"
            and hit: "\<forall>c. r = Some c \<longrightarrow>
              (\<exists>k\<le>length (parent d).
                 config_lookup s1 (str_path (take k (parent d) @ [''__embargo__.json'']))
                   = Some c)"
            by blast+
          have third: "\<forall>c. r = Some c \<longrightarrow>
              (\<exists>k\<le>length d.
                 config_lookup s1 (str_path (take k d @ [''__embargo__.json''])) = Some c)"
          proof (intro allI impI)
            fix c assume "r = Some c"
            with hit obtain k where k: "k \<le> length d - 1"
              "config_lookup s1 (str_path (take k (butlast d) @ [''__embargo__.json'']))
                 = Some c"
              by (auto simp: parent_def)
            then have "k \<le> length d \<and>
                config_lookup s1 (str_path (take k d @ [''__embargo__.json''])) = Some c"
              by (simp add: take_butlast_le)
            then show "\<exists>k\<le>length d.
                config_lookup s1 (str_path (take k d @ [''__embargo__.json''])) = Some c"
              by blast
          qed
          have second: "get_package_config fs d root s1 = Some (Inr r, s1)"
          proof (cases "config_lookup s1 ?key")
            case None
            with nofile have "unpoliced fs s1 d" by (simp add: unpoliced_def)
            from gpc_step [OF this False] again show ?thesis by simp
          next
            case (Some c')
            with None rel have "r = Some c'" by (auto split: if_splits)
            with gpc_cached [OF Some] show ?thesis by simp
          qed
          from rel second third show ?thesis by blast
        qed
      qed
    qed
  qed
qed

subsection \<open>The scenarios, evaluated\<close>

lemma scenario_paths:
  "parent (build_path_from_import ''pkg.db'' app_root) = [''r'', ''pkg'']"
  "build_module_from_path other_py app_root = Inr ''pkg.other''"
  "str_path other_py = ''/r/pkg/other.py''"
  "parent other_py = [''r'', ''pkg'']"
  by (simp_all add: build_path_from_import_def app_root_def parent_def other_py_def
      build_module_from_path_def relative_to_def str_relative_def str_path_def)

lemma scenario_config:
  "get_package_config (policy_in_pkg kvs) [''r'', ''pkg''] app_root fresh =
     (case build_config ''/r/pkg/__embargo__.json'' (JObject kvs) of
        Inl e \<Rightarrow> Some (Inl e, fresh\<lparr>read_log := [[''r'', ''pkg'', ''__embargo__.json'']]\<rparr>)
      | Inr c \<Rightarrow>
          Some (Inr (Some c),
                \<lparr>config_lookup = [''/r/pkg/__embargo__.json'' \<mapsto> c],
                 read_log = [[''r'', ''pkg'', ''__embargo__.json'']]\<rparr>))"
  by (subst get_package_config.simps)
     (simp add: policy_in_pkg_def fresh_def str_path_def split: sum.split)

section \<open>The export check\<close>

text \<open>
  \<^bold>\<open>C1\<close> (as amended). In the export check, when the configuration found for the imported
  module's directory restricts exports and the importing file is not exempt, the name
  tested against the export list is the name of the imported module, \<^verbatim>\<open>node.module\<close>: the
  check passes exactly when a stored key is a prefix of that name followed by a dot.
  Otherwise the report names the importing file, by its path, and the imported module, then
  the export list and the policy file.
\<close>

theorem export_check_tests_imported_module:
  assumes "get_package_config fs (parent (build_path_from_import imported root)) root s
             = Some (Inr (Some config), s1)"
    and "allowed config EXPORT = Some (t, False)"
    and "bypass_check EXPORT file root config = Inr False"
  shows "check_for_allowed fs EXPORT file root s \<lparr>module = Some imported\<rparr> =
     Some (Inr (if \<exists>k\<in>set (keys t). prefix k (imported @ ''.'') then []
                else [Offence (str_path file) imported,
                      AllowedExports (map (rstrip CHR ''.'') (keys t)),
                      ConfigFile (path config)]),
           s1)"
  using assms
  by (simp add: check_for_allowed_def actual_path_of_def report_def restricted_allows)

text \<open>
  In scenario B the report names the file \<^verbatim>\<open>/r/pkg/other.py\<close> and the module \<^verbatim>\<open>pkg.db\<close>.
\<close>

theorem export_check_tests_imported_module_witness:
  "map_option fst
     (check_for_allowed
        (policy_in_pkg [(''allowed_export_modules'', JArray [JString ''pkg.worker''])])
        EXPORT other_py app_root fresh \<lparr>module = Some ''pkg.db''\<rparr>)
   = Some (Inr [Offence ''/r/pkg/other.py'' ''pkg.db'',
                AllowedExports [''pkg.worker''],
                ConfigFile ''/r/pkg/__embargo__.json''])"
proof -
  let ?c = "\<lparr>allowed = [IMPORT \<mapsto> (Trie [], True),
                         EXPORT \<mapsto> (Trie [''pkg.worker.''], False),
                         BYPASS \<mapsto> (Trie [], True)],
             path = ''/r/pkg/__embargo__.json''\<rparr>"
  let ?s1 = "\<lparr>config_lookup = [''/r/pkg/__embargo__.json'' \<mapsto> ?c],
              read_log = [[''r'', ''pkg'', ''__embargo__.json'']]\<rparr>"
  have g: "get_package_config
      (policy_in_pkg [(''allowed_export_modules'', JArray [JString ''pkg.worker''])])
      (parent (build_path_from_import ''pkg.db'' app_root)) app_root fresh
      = Some (Inr (Some ?c), ?s1)"
    by (simp add: scenario_paths scenario_config build_config_def mode_keys_def
        build_allow_def)
  have a: "allowed ?c EXPORT = Some (Trie [''pkg.worker.''], False)"
    by simp
  have b: "bypass_check EXPORT other_py app_root ?c = Inr False"
    by (simp add: bypass_check_def scenario_paths is_operation_allowed_def)
  from export_check_tests_imported_module [OF g a b] show ?thesis
    by (simp add: scenario_paths rstrip_def)
qed

text \<open>
  The importer's own name is not what is tested. With the export list \<^verbatim>\<open>["pkg.other"]\<close> the
  importer \<^verbatim>\<open>pkg.other\<close> is on the list and its import of \<^verbatim>\<open>pkg.db\<close> is reported all the
  same; with the list \<^verbatim>\<open>["pkg.db"]\<close> the importer is not on the list and the import passes.
\<close>

theorem export_check_not_importer_counterexample:
  "build_module_from_path other_py app_root = Inr ''pkg.other''
   \<and> is_operation_allowed ''pkg.other'' (Trie [''pkg.other.''], False)
   \<and> map_option fst
        (check_for_allowed
           (policy_in_pkg [(''allowed_export_modules'', JArray [JString ''pkg.other''])])
           EXPORT other_py app_root fresh import_db)
      = Some (Inr [Offence ''/r/pkg/other.py'' ''pkg.db'',
                   AllowedExports [''pkg.other''],
                   ConfigFile ''/r/pkg/__embargo__.json''])
   \<and> is_operation_allowed ''pkg.db'' (Trie [''pkg.db.''], False)
   \<and> \<not> is_operation_allowed ''pkg.other'' (Trie [''pkg.db.''], False)
   \<and> map_option fst
        (check_for_allowed
           (policy_in_pkg [(''allowed_export_modules'', JArray [JString ''pkg.db''])])
           EXPORT other_py app_root fresh import_db)
      = Some (Inr [])"
  by (simp add: check_for_allowed_def actual_path_of_def import_db_def scenario_paths
      scenario_config build_config_def mode_keys_def build_allow_def bypass_check_def
      is_operation_allowed_def report_def rstrip_def)

text \<open>
  \<^bold>\<open>C2\<close>. The claim is that the suffix \<^verbatim>\<open>.py\<close> is removed at the end of the name only, so
  that \<^verbatim>\<open>pkg/pyth.py\<close> becomes \<^verbatim>\<open>pkg.pyth\<close>. The source removes every occurrence of
  \<^verbatim>\<open>.py\<close>, after the separators have become dots: the file \<^verbatim>\<open>pkg/pyth.py\<close> becomes \<^verbatim>\<open>pkgth\<close>.
\<close>

theorem suffix_removed_everywhere:
  "build_module_from_path [''r'', ''pkg'', ''pyth.py''] [''r''] = Inr ''pkgth''"
  by (simp add: build_module_from_path_def relative_to_def str_relative_def)

section \<open>Matching\<close>

text \<open>
  \<^bold>\<open>C3\<close>. The list with the single prefix \<open>p\<close> is stored as the key \<open>p\<close> followed by a dot, and
  the restricted set with that key allows a candidate \<open>c\<close> exactly when \<open>c\<close> is \<open>p\<close> or \<open>c\<close>
  starts with \<open>p\<close> followed by a dot.
\<close>

theorem single_prefix_matching:
  "build_allow (JObject [(name, JArray [JString p])]) name = Inr (Trie [p @ ''.''], False)
   \<and> (is_operation_allowed c (Trie [p @ ''.''], False) \<longleftrightarrow> c = p \<or> prefix (p @ ''.'') c)"
  by (auto simp: build_allow_def is_operation_allowed_def prefix_dot)

text \<open>
  The prefix \<^verbatim>\<open>a.b\<close> matches \<^verbatim>\<open>a.b\<close> and \<^verbatim>\<open>a.b.c\<close>, and none of \<^verbatim>\<open>a.bc\<close>, \<^verbatim>\<open>b\<close>, \<^verbatim>\<open>a.c\<close>.
\<close>

theorem single_prefix_matching_witness:
  "is_operation_allowed ''a.b'' (Trie [''a.b.''], False)
   \<and> is_operation_allowed ''a.b.c'' (Trie [''a.b.''], False)
   \<and> \<not> is_operation_allowed ''a.bc'' (Trie [''a.b.''], False)
   \<and> \<not> is_operation_allowed ''b'' (Trie [''a.b.''], False)
   \<and> \<not> is_operation_allowed ''a.c'' (Trie [''a.b.''], False)"
  using single_prefix_matching [of "''k''" "''a.b''" "''a.b''"]
    single_prefix_matching [of "''k''" "''a.b''" "''a.b.c''"]
    single_prefix_matching [of "''k''" "''a.b''" "''a.bc''"]
    single_prefix_matching [of "''k''" "''a.b''" "''b''"]
    single_prefix_matching [of "''k''" "''a.b''" "''a.c''"]
  by simp

text \<open>
  \<^bold>\<open>C4\<close> (as amended). For a policy file that was parsed into a configuration and each of
  the three modes, the set of the mode is unrestricted, and then allows every candidate,
  exactly when the key is missing or bound to \<^verbatim>\<open>null\<close>; a key bound to the empty list gives
  a restricted set that allows no candidate.
\<close>

theorem unrestricted_iff_absent_or_null:
  assumes "build_config f (JObject kvs) = Inr c" and "(which, name) \<in> set mode_keys"
  shows "\<exists>t u. allowed c which = Some (t, u)
     \<and> (u \<longleftrightarrow> map_of kvs name = None \<or> map_of kvs name = Some JNull)
     \<and> (u \<longrightarrow> (\<forall>candidate. is_operation_allowed candidate (t, u)))
     \<and> (map_of kvs name = Some (JArray []) \<longrightarrow>
           \<not> u \<and> (\<forall>candidate. \<not> is_operation_allowed candidate (t, u)))"
proof -
  from build_config_allowed [OF assms] obtain t u
    where e: "build_allow (JObject kvs) name = Inr (t, u)" "allowed c which = Some (t, u)"
    by auto
  from build_allow_object [OF e(1)] e(2) show ?thesis
    by (auto simp: is_operation_allowed_def)
qed

theorem unrestricted_iff_absent_or_null_witness:
  "\<exists>t u. allowed \<lparr>allowed = [IMPORT \<mapsto> (Trie [], False),
                              EXPORT \<mapsto> (Trie [], True),
                              BYPASS \<mapsto> (Trie [], True)],
                  path = ''/r/__embargo__.json''\<rparr> IMPORT = Some (t, u)
     \<and> (u \<longleftrightarrow> map_of [(''allowed_import_modules'', JArray [])] ''allowed_import_modules'' = None
              \<or> map_of [(''allowed_import_modules'', JArray [])] ''allowed_import_modules''
                   = Some JNull)
     \<and> (u \<longrightarrow> (\<forall>candidate. is_operation_allowed candidate (t, u)))
     \<and> (map_of [(''allowed_import_modules'', JArray [])] ''allowed_import_modules''
           = Some (JArray []) \<longrightarrow>
           \<not> u \<and> (\<forall>candidate. \<not> is_operation_allowed candidate (t, u)))"
proof -
  have b: "build_config ''/r/__embargo__.json''
      (JObject [(''allowed_import_modules'', JArray [])])
      = Inr \<lparr>allowed = [IMPORT \<mapsto> (Trie [], False),
                         EXPORT \<mapsto> (Trie [], True),
                         BYPASS \<mapsto> (Trie [], True)],
             path = ''/r/__embargo__.json''\<rparr>"
    by (simp add: build_config_def mode_keys_def build_allow_def)
  have m: "(IMPORT, ''allowed_import_modules'') \<in> set mode_keys"
    by (simp add: mode_keys_def)
  show ?thesis by (rule unrestricted_iff_absent_or_null [OF b m])
qed

text \<open>
  A key that is present and bound to \<^verbatim>\<open>null\<close> gives the unrestricted set, which allows the
  empty candidate.
\<close>

theorem null_key_is_unrestricted_counterexample:
  "map_of [(''allowed_import_modules'', JNull)] ''allowed_import_modules'' = Some JNull
   \<and> build_config ''/r/__embargo__.json'' (JObject [(''allowed_import_modules'', JNull)])
     = Inr \<lparr>allowed = [IMPORT \<mapsto> (Trie [], True),
                        EXPORT \<mapsto> (Trie [], True),
                        BYPASS \<mapsto> (Trie [], True)],
            path = ''/r/__embargo__.json''\<rparr>
   \<and> is_operation_allowed '''' (Trie [], True)"
  by (simp add: build_config_def mode_keys_def build_allow_def is_operation_allowed_def)

section \<open>Exemption from the export check\<close>

text \<open>
  \<^bold>\<open>C5\<close>. When the name of the importing file has a key of the bypass set as a prefix (after
  the dot is appended), the export check reports nothing, whatever the export list is.
\<close>

theorem bypass_short_circuits:
  assumes "get_package_config fs (parent (build_path_from_import imported root)) root s
             = Some (Inr (Some config), s1)"
    and "allowed config EXPORT = Some export_allow"
    and "allowed config BYPASS = Some (bypass, flag)"
    and "build_module_from_path file root = Inr importer"
    and "\<exists>k\<in>set (keys bypass). prefix k (importer @ ''.'')"
  shows "check_for_allowed fs EXPORT file root s \<lparr>module = Some imported\<rparr>
           = Some (Inr [], s1)"
  using assms
  by (simp add: check_for_allowed_def actual_path_of_def bypass_check_def restricted_allows)

text \<open>
  Scenario C: the export list rejects \<^verbatim>\<open>pkg.db\<close>, the importer \<^verbatim>\<open>pkg.other\<close> is exempt.
\<close>

theorem bypass_short_circuits_witness:
  "\<not> is_operation_allowed ''pkg.db'' (Trie [''pkg.worker.''], False)
   \<and> map_option fst
     (check_for_allowed
        (policy_in_pkg [(''allowed_export_modules'', JArray [JString ''pkg.worker'']),
                        (''bypass_export_check_for_modules'', JArray [JString ''pkg.other''])])
        EXPORT other_py app_root fresh \<lparr>module = Some ''pkg.db''\<rparr>)
   = Some (Inr [])"
proof -
  let ?c = "\<lparr>allowed = [IMPORT \<mapsto> (Trie [], True),
                         EXPORT \<mapsto> (Trie [''pkg.worker.''], False),
                         BYPASS \<mapsto> (Trie [''pkg.other.''], False)],
             path = ''/r/pkg/__embargo__.json''\<rparr>"
  let ?s1 = "\<lparr>config_lookup = [''/r/pkg/__embargo__.json'' \<mapsto> ?c],
              read_log = [[''r'', ''pkg'', ''__embargo__.json'']]\<rparr>"
  have g: "get_package_config
      (policy_in_pkg [(''allowed_export_modules'', JArray [JString ''pkg.worker'']),
                      (''bypass_export_check_for_modules'', JArray [JString ''pkg.other''])])
      (parent (build_path_from_import ''pkg.db'' app_root)) app_root fresh
      = Some (Inr (Some ?c), ?s1)"
    by (simp add: scenario_paths scenario_config build_config_def mode_keys_def
        build_allow_def)
  have a: "allowed ?c EXPORT = Some (Trie [''pkg.worker.''], False)"
    by simp
  have b: "allowed ?c BYPASS = Some (Trie [''pkg.other.''], False)"
    by simp
  have m: "build_module_from_path other_py app_root = Inr ''pkg.other''"
    by (simp add: scenario_paths)
  have k: "\<exists>k\<in>set (keys (Trie [''pkg.other.''])). prefix k (''pkg.other'' @ ''.'')"
    by simp
  from bypass_short_circuits [OF g a b m k] show ?thesis
    by (simp add: is_operation_allowed_def)
qed

text \<open>
  \<^bold>\<open>C6\<close>. For a policy file without the key \<^verbatim>\<open>bypass_export_check_for_modules\<close> no importing
  file is exempt: the test of lines 169 to 176 is false whenever the name of the importing
  file can be computed. Without the key \<^verbatim>\<open>allowed_export_modules\<close>, on the contrary, the
  export list allows every module.
\<close>

theorem absent_bypass_exempts_nothing:
  assumes "build_config f (JObject kvs) = Inr config"
  shows "(map_of kvs ''bypass_export_check_for_modules'' = None \<longrightarrow>
            (\<forall>file root. bypass_check EXPORT file root config =
               (case build_module_from_path file root of
                  Inl e \<Rightarrow> Inl e
                | Inr importer \<Rightarrow> Inr False)))
       \<and> (map_of kvs ''allowed_export_modules'' = None \<longrightarrow>
            (\<exists>export_allow. allowed config EXPORT = Some export_allow
               \<and> (\<forall>imported. is_operation_allowed imported export_allow)))"
proof (intro conjI impI)
  assume absent: "map_of kvs ''bypass_export_check_for_modules'' = None"
  from build_config_allowed [OF assms, of BYPASS "''bypass_export_check_for_modules''"]
  obtain t u where e: "build_allow (JObject kvs) ''bypass_export_check_for_modules'' = Inr (t, u)"
      "allowed config BYPASS = Some (t, u)"
    by (auto simp: mode_keys_def)
  from build_allow_object [OF e(1)] absent have "t = Trie []" by simp
  with e(2) show "\<forall>file root. bypass_check EXPORT file root config =
      (case build_module_from_path file root of
         Inl e \<Rightarrow> Inl e
       | Inr importer \<Rightarrow> Inr False)"
    by (simp add: bypass_check_def is_operation_allowed_def split: sum.split)
next
  assume absent: "map_of kvs ''allowed_export_modules'' = None"
  from build_config_allowed [OF assms, of EXPORT "''allowed_export_modules''"]
  obtain t u where e: "build_allow (JObject kvs) ''allowed_export_modules'' = Inr (t, u)"
      "allowed config EXPORT = Some (t, u)"
    by (auto simp: mode_keys_def)
  from build_allow_object [OF e(1)] absent have "u" by simp
  with e(2) show "\<exists>export_allow. allowed config EXPORT = Some export_allow
      \<and> (\<forall>imported. is_operation_allowed imported export_allow)"
    by (simp add: is_operation_allowed_def)
qed

theorem absent_bypass_exempts_nothing_witness:
  "bypass_check EXPORT other_py app_root
     \<lparr>allowed = [IMPORT \<mapsto> (Trie [], True), EXPORT \<mapsto> (Trie [], True),
                 BYPASS \<mapsto> (Trie [], True)],
      path = ''/r/pkg/__embargo__.json''\<rparr> = Inr False
   \<and> is_operation_allowed ''pkg.db'' (Trie [], True)"
proof -
  have b: "build_config ''/r/pkg/__embargo__.json'' (JObject [])
      = Inr \<lparr>allowed = [IMPORT \<mapsto> (Trie [], True), EXPORT \<mapsto> (Trie [], True),
                         BYPASS \<mapsto> (Trie [], True)],
             path = ''/r/pkg/__embargo__.json''\<rparr>"
    by (simp add: build_config_def mode_keys_def build_allow_def)
  from absent_bypass_exempts_nothing [OF b] show ?thesis
    by (simp add: scenario_paths)
qed

section \<open>The search for the policy file\<close>

text \<open>
  \<^bold>\<open>C7\<close>. If the directory is the root or below it, and no directory from it up to the root
  holds a policy file or has an entry in the cache, the search returns \<^verbatim>\<open>None\<close> and leaves
  the state as it was. Only the directories between the queried one and the root are
  constrained, so nothing else is consulted.
\<close>

theorem no_policy_up_to_root:
  assumes "prefix root d"
    and "\<forall>k. length root \<le> k \<and> k \<le> length d \<longrightarrow> unpoliced fs s (take k d)"
  shows "get_package_config fs d root s = Some (Inr None, s)"
proof -
  from assms(1) obtain rest where d: "d = root @ rest"
    by (auto simp: prefix_def)
  have between: "\<forall>k. 0 < k \<and> k \<le> length rest \<longrightarrow>
      unpoliced fs s (root @ take k rest) \<and> root @ take k rest \<noteq> root"
  proof (intro allI impI)
    fix k assume k: "0 < k \<and> k \<le> length rest"
    with assms(2) [rule_format, of "length root + k"] d
    have "unpoliced fs s (root @ take k rest)" by simp
    moreover from k have "take k rest \<noteq> []" by auto
    ultimately show "unpoliced fs s (root @ take k rest) \<and> root @ take k rest \<noteq> root"
      by simp
  qed
  from assms(2) [rule_format, of "length root"] d have "unpoliced fs s root"
    by simp
  with gpc_skip [OF between] d show ?thesis
    by (simp add: gpc_root)
qed

theorem no_policy_up_to_root_witness:
  "get_package_config Map.empty [''r'', ''pkg'', ''sub''] app_root fresh = Some (Inr None, fresh)"
proof -
  have p: "prefix app_root [''r'', ''pkg'', ''sub'']"
    by (simp add: app_root_def)
  have u: "\<forall>k. length app_root \<le> k \<and> k \<le> length [''r'', ''pkg'', ''sub''] \<longrightarrow>
      unpoliced Map.empty fresh (take k [''r'', ''pkg'', ''sub''])"
    by (simp add: unpoliced_def fresh_def)
  show ?thesis by (rule no_policy_up_to_root [OF p u])
qed

text \<open>
  \<^bold>\<open>C8\<close>. If a call returns a result, a second call for the same directory, in the state
  the first one left, returns the same result and leaves that state as it is: the log
  of reads does not grow, so no file is read again. A configuration that is returned is in
  the cache under the name of the policy file of the directory or of one of its ancestors.
\<close>

theorem second_call_uses_cache:
  assumes "get_package_config fs d root s = Some (Inr r, s1)"
  shows "get_package_config fs d root s1 = Some (Inr r, s1)
     \<and> (\<forall>c. r = Some c \<longrightarrow>
            (\<exists>k\<le>length d.
               config_lookup s1 (str_path (take k d @ [''__embargo__.json''])) = Some c))"
  using gpc_again [OF assms] by blast

theorem second_call_uses_cache_witness:
  "get_package_config
     (policy_in_pkg [(''allowed_export_modules'', JArray [JString ''pkg.worker''])])
     [''r'', ''pkg''] app_root
     \<lparr>config_lookup =
        [''/r/pkg/__embargo__.json'' \<mapsto>
           \<lparr>allowed = [IMPORT \<mapsto> (Trie [], True),
                       EXPORT \<mapsto> (Trie [''pkg.worker.''], False),
                       BYPASS \<mapsto> (Trie [], True)],
            path = ''/r/pkg/__embargo__.json''\<rparr>],
      read_log = [[''r'', ''pkg'', ''__embargo__.json'']]\<rparr>
   = Some (Inr (Some \<lparr>allowed = [IMPORT \<mapsto> (Trie [], True),
                                 EXPORT \<mapsto> (Trie [''pkg.worker.''], False),
                                 BYPASS \<mapsto> (Trie [], True)],
                      path = ''/r/pkg/__embargo__.json''\<rparr>),
           \<lparr>config_lookup =
              [''/r/pkg/__embargo__.json'' \<mapsto>
                 \<lparr>allowed = [IMPORT \<mapsto> (Trie [], True),
                             EXPORT \<mapsto> (Trie [''pkg.worker.''], False),
                             BYPASS \<mapsto> (Trie [], True)],
                  path = ''/r/pkg/__embargo__.json''\<rparr>],
            read_log = [[''r'', ''pkg'', ''__embargo__.json'']]\<rparr>)"
proof -
  have g: "get_package_config
      (policy_in_pkg [(''allowed_export_modules'', JArray [JString ''pkg.worker''])])
      [''r'', ''pkg''] app_root fresh
    = Some (Inr (Some \<lparr>allowed = [IMPORT \<mapsto> (Trie [], True),
                                  EXPORT \<mapsto> (Trie [''pkg.worker.''], False),
                                  BYPASS \<mapsto> (Trie [], True)],
                       path = ''/r/pkg/__embargo__.json''\<rparr>),
            \<lparr>config_lookup =
               [''/r/pkg/__embargo__.json'' \<mapsto>
                  \<lparr>allowed = [IMPORT \<mapsto> (Trie [], True),
                              EXPORT \<mapsto> (Trie [''pkg.worker.''], False),
                              BYPASS \<mapsto> (Trie [], True)],
                   path = ''/r/pkg/__embargo__.json''\<rparr>],
             read_log = [[''r'', ''pkg'', ''__embargo__.json'']]\<rparr>)"
    by (simp add: scenario_config build_config_def mode_keys_def build_allow_def)
  from second_call_uses_cache [OF g] show ?thesis by (rule conjunct1)
qed

text \<open>
  \<^bold>\<open>C9\<close>. If the policy file that the search reaches cannot be read or is not JSON, the call
  raises the error, and the cache is as before. The import check and the export check that
  made the call raise it as well, with no report, and so does the check of a file at its
  first import node. No call that raises changes the cache.
\<close>

theorem malformed_policy_aborts:
  assumes "fs (a @ [''__embargo__.json'']) = Some pf"
    and "read_json pf = Inl e"
    and "config_lookup s (str_path (a @ [''__embargo__.json''])) = None"
    and "\<forall>k. 0 < k \<and> k \<le> length rest \<longrightarrow>
           unpoliced fs s (a @ take k rest) \<and> a @ take k rest \<noteq> root"
  shows "get_package_config fs (a @ rest) root s
           = Some (Inl e, s\<lparr>read_log := read_log s @ [a @ [''__embargo__.json'']]\<rparr>)
     \<and> (parent file = a @ rest \<longrightarrow>
          check_for_allowed fs IMPORT file root s node
            = Some (Inl e, s\<lparr>read_log := read_log s @ [a @ [''__embargo__.json'']]\<rparr>))
     \<and> (parent (build_path_from_import imported root) = a @ rest \<longrightarrow>
          check_for_allowed fs EXPORT file root s \<lparr>module = Some imported\<rparr>
            = Some (Inl e, s\<lparr>read_log := read_log s @ [a @ [''__embargo__.json'']]\<rparr>))
     \<and> (parent file = a @ rest \<and> suffix ''.py'' (str_path file) \<longrightarrow>
          check_for_violations fs file root s (node # nodes)
            = Some (Inl e, s\<lparr>read_log := read_log s @ [a @ [''__embargo__.json'']]\<rparr>))
     \<and> (\<forall>d' s' e' s1. get_package_config fs d' root s' = Some (Inl e', s1) \<longrightarrow>
          config_lookup s1 = config_lookup s')"
proof -
  have g: "get_package_config fs (a @ rest) root s
      = Some (Inl e, s\<lparr>read_log := read_log s @ [a @ [''__embargo__.json'']]\<rparr>)"
    using gpc_skip [OF assms(4)]
      gpc_unreadable [of s a fs pf e root, OF assms(3) assms(1) assms(2)]
    by simp
  have i: "parent file = a @ rest \<longrightarrow>
      check_for_allowed fs IMPORT file root s node
        = Some (Inl e, s\<lparr>read_log := read_log s @ [a @ [''__embargo__.json'']]\<rparr>)"
    using g by (simp add: check_for_allowed_def actual_path_of_def)
  have x: "parent (build_path_from_import imported root) = a @ rest \<longrightarrow>
      check_for_allowed fs EXPORT file root s \<lparr>module = Some imported\<rparr>
        = Some (Inl e, s\<lparr>read_log := read_log s @ [a @ [''__embargo__.json'']]\<rparr>)"
    using g by (simp add: check_for_allowed_def actual_path_of_def)
  have v: "parent file = a @ rest \<and> suffix ''.py'' (str_path file) \<longrightarrow>
      check_for_violations fs file root s (node # nodes)
        = Some (Inl e, s\<lparr>read_log := read_log s @ [a @ [''__embargo__.json'']]\<rparr>)"
    using i by (simp add: check_for_violations_def)
  have c: "\<forall>d' s' e' s1. get_package_config fs d' root s' = Some (Inl e', s1) \<longrightarrow>
      config_lookup s1 = config_lookup s'"
    using gpc_error_keeps_cache by blast
  from g i x v c show ?thesis by blast
qed

theorem malformed_policy_aborts_witness:
  "get_package_config [[''r'', ''__embargo__.json''] \<mapsto> NotJSON] ([''r''] @ [''pkg'']) app_root fresh
     = Some (Inl JSONDecodeError,
             fresh\<lparr>read_log := read_log fresh @ [[''r''] @ [''__embargo__.json'']]\<rparr>)
   \<and> check_for_violations [[''r'', ''__embargo__.json''] \<mapsto> NotJSON] other_py app_root fresh
       [import_db]
     = Some (Inl JSONDecodeError,
             fresh\<lparr>read_log := read_log fresh @ [[''r''] @ [''__embargo__.json'']]\<rparr>)"
proof -
  let ?fs = "[[''r'', ''__embargo__.json''] \<mapsto> NotJSON] :: file_system"
  have f: "?fs ([''r''] @ [''__embargo__.json'']) = Some NotJSON" by simp
  have r: "read_json NotJSON = Inl JSONDecodeError" by simp
  have l: "config_lookup fresh (str_path ([''r''] @ [''__embargo__.json''])) = None"
    by (simp add: fresh_def)
  have b: "\<forall>k. 0 < k \<and> k \<le> length [''pkg''] \<longrightarrow>
      unpoliced ?fs fresh ([''r''] @ take k [''pkg''])
      \<and> [''r''] @ take k [''pkg''] \<noteq> app_root"
    by (simp add: unpoliced_def fresh_def app_root_def)
  have p: "parent other_py = [''r''] @ [''pkg''] \<and> suffix ''.py'' (str_path other_py)"
    by (simp add: scenario_paths suffix_def)
  from malformed_policy_aborts
    [of ?fs "[''r'']" NotJSON JSONDecodeError fresh "[''pkg'']" app_root other_py import_db
        "''pkg.db''" "[]", OF f r l b] p
  show ?thesis by blast
qed

text \<open>
  \<^bold>\<open>C10\<close>. For a directory that is the root or below it the call returns. For a directory
  that is not, with no policy file and no cache entry on its chain of ancestors, the call
  does not return.
\<close>

theorem returns_exactly_below_root:
  "(prefix root d \<longrightarrow> (\<exists>r. get_package_config fs d root s = Some r))
   \<and> (\<not> prefix root d \<and> (\<forall>k\<le>length d. unpoliced fs s (take k d)) \<longrightarrow>
        get_package_config fs d root s = None)"
proof (intro conjI impI)
  assume "prefix root d"
  then obtain rest where "d = root @ rest"
    by (auto simp: prefix_def)
  with gpc_returns_below [of fs root rest s]
  show "\<exists>r. get_package_config fs d root s = Some r" by simp
next
  assume out: "\<not> prefix root d \<and> (\<forall>k\<le>length d. unpoliced fs s (take k d))"
  show "get_package_config fs d root s = None"
  proof (cases "get_package_config fs d root s")
    case None
    then show ?thesis .
  next
    case (Some y)
    from gpc_returns_only_if [OF this] out show ?thesis by blast
  qed
qed

theorem returns_exactly_below_root_witness:
  "(\<exists>r. get_package_config Map.empty [''r'', ''pkg''] [''r''] fresh = Some r)
   \<and> get_package_config Map.empty [''q'', ''pkg''] [''r''] fresh = None"
proof -
  have p: "prefix [''r''] [''r'', ''pkg'']" by simp
  have q: "\<not> prefix [''r''] [''q'', ''pkg'']
      \<and> (\<forall>k\<le>length [''q'', ''pkg'']. unpoliced Map.empty fresh (take k [''q'', ''pkg'']))"
    by (simp add: unpoliced_def fresh_def)
  from returns_exactly_below_root [of "[''r'']" "[''r'', ''pkg'']" Map.empty fresh] p
    returns_exactly_below_root [of "[''r'']" "[''q'', ''pkg'']" Map.empty fresh] q
  show ?thesis by blast
qed

end
